theory Spec2Isabelle
  imports Main
begin

section \<open>Data model of \<open>app/main.py\<close>\<close>

text \<open>
  The service is a FastAPI application with two read-only routes. The module holds two
  pieces of data that the handlers read at request time: the list of dictionaries
  \<open>fake_db\<close> and the dictionary \<open>AuthenticationInGet.Config.schema_extra['example']\<close>.
  Both are ordinary mutable Python objects, so they are kept in an explicit server
  state that every handler receives and returns.

  JSON values, as the response bodies carry them. An object is an association list:
  the encoder emits the members in the order of the model's field declarations.
\<close>

datatype json =
    JNull
  | JBool bool
  | JString string
  | JArray "json list"
  | JObject "(string \<times> json) list"

text \<open>
  An entry of \<open>fake_db\<close> is a dictionary from strings to strings, written as an
  association list and read with \<open>map_of\<close>.
\<close>

type_synonym dict = "(string \<times> string) list"

text \<open>
  \<^verbatim>\<open>
  class Version(BaseModel):
      version_id: str = Field(description='Identifier of the version')
      # None because required = false
      detailed_version: AnyHttpUrl = Field(None, description='Url to specification on GitHub')

  class Versions(BaseModel):
      versions: List[Version]
  \<close>
  A field declared with the default \<open>None\<close> is optional: \<open>None\<close> is the absent value.
\<close>

record Version =
  version_id :: string
  detailed_version :: "string option"

record Versions =
  versions :: "Version list"

text \<open>
  \<^verbatim>\<open>
  class AuthenticationInGet(BaseModel):
      oauth2_auth_url: AnyHttpUrl = Field(None, ...)
      oauth2_token_url: AnyHttpUrl = Field(None, ...)
      oauth2_dynamic_client_reg_url: AnyHttpUrl = Field(None, ...)
      http_basic_supported: bool = Field(None, ...)
      supported_oauth2_flows: List[str] = Field(None, ...)
  \<close>
  All five fields are optional. The same record type is used for the dictionary that
  \<open>get_auth\<close> returns (a key that is missing is \<open>None\<close>; the values have the types of
  the fields) and for the validated model instance.
\<close>

record AuthenticationInGet =
  oauth2_auth_url :: "string option"
  oauth2_token_url :: "string option"
  oauth2_dynamic_client_reg_url :: "string option"
  http_basic_supported :: "bool option"
  supported_oauth2_flows :: "string list option"

text \<open>The module-level data read by the handlers.\<close>

record server_state =
  fake_db :: "dict list"
  schema_example :: AuthenticationInGet

text \<open>
  \<^verbatim>\<open>
  fake_db = [
      {"version_id": "1.0", "detailed_version": "https://github.com/BuildingSMART/BCF-API"},
      {"version_id": "2.1", "detailed_version": "https://github.com/BuildingSMART/BCF-API"}
  ]
  \<close>
  and the \<open>example\<close> entry of \<open>AuthenticationInGet.Config.schema_extra\<close>.
\<close>

definition initial_state :: server_state where
  "initial_state =
     \<lparr> fake_db =
         [ [(''version_id'', ''1.0''),
            (''detailed_version'', ''https://github.com/BuildingSMART/BCF-API'')],
           [(''version_id'', ''2.1''),
            (''detailed_version'', ''https://github.com/BuildingSMART/BCF-API'')] ],
       schema_example =
         \<lparr> oauth2_auth_url = Some ''https://example.com/bcf/oauth2/auth'',
           oauth2_token_url = Some ''https://example.com/bcf/oauth2/token'',
           oauth2_dynamic_client_reg_url = Some ''https://example.com/bcf/oauth2/reg'',
           http_basic_supported = Some True,
           supported_oauth2_flows =
             Some [''authorization_code_grant'', ''implicit_grant'',
                   ''resource_owner_password_credentials_grant''] \<rparr> \<rparr>"

section \<open>Validation\<close>

text \<open>
  The type \<open>AnyHttpUrl\<close> is imported from pydantic; its validator is not part of this
  repository. It is a parameter \<open>url\<close> of the model: \<open>url s = None\<close> when \<open>s\<close> is
  rejected, and \<open>url s = Some s'\<close> when \<open>s\<close> is accepted and stored as \<open>s'\<close>.

  A failed validation raises \<open>ValidationError\<close>, which lists the fields that failed.
\<close>

datatype error = ValidationError "string list"

definition required_str :: "string \<Rightarrow> string option \<Rightarrow> string list + string" where
  "required_str name raw = (case raw of None \<Rightarrow> Inl [name] | Some s \<Rightarrow> Inr s)"

definition optional_url ::
  "(string \<Rightarrow> string option) \<Rightarrow> string \<Rightarrow> string option \<Rightarrow> string list + string option" where
  "optional_url url name raw =
     (case raw of
        None \<Rightarrow> Inr None
      | Some s \<Rightarrow> (case url s of None \<Rightarrow> Inl [name] | Some s' \<Rightarrow> Inr (Some s')))"

definition errors_of :: "string list + 'a \<Rightarrow> string list" where
  "errors_of r = (case r of Inl es \<Rightarrow> es | Inr _ \<Rightarrow> [])"

text \<open>
  \<open>Version(**item)\<close>: every field is validated, the errors of all fields are collected,
  and the instance is built only when there is none. Keys of \<open>item\<close> that are not fields
  are ignored.
\<close>

definition Version_init :: "(string \<Rightarrow> string option) \<Rightarrow> dict \<Rightarrow> error + Version" where
  "Version_init url item =
     (case (required_str ''version_id'' (map_of item ''version_id''),
            optional_url url ''detailed_version'' (map_of item ''detailed_version'')) of
        (Inr vid, Inr dv) \<Rightarrow> Inr \<lparr> version_id = vid, detailed_version = dv \<rparr>
      | (r1, r2) \<Rightarrow> Inl (ValidationError (errors_of r1 @ errors_of r2)))"

text \<open>
  Validation of a returned dictionary against \<open>response_model=AuthenticationInGet\<close>:
  the three URL fields go through the URL validator, the other two hold values of their
  declared types already.
\<close>

definition AuthenticationInGet_validate ::
  "(string \<Rightarrow> string option) \<Rightarrow> AuthenticationInGet \<Rightarrow> error + AuthenticationInGet" where
  "AuthenticationInGet_validate url d =
     (case (optional_url url ''oauth2_auth_url'' (oauth2_auth_url d),
            optional_url url ''oauth2_token_url'' (oauth2_token_url d),
            optional_url url ''oauth2_dynamic_client_reg_url'' (oauth2_dynamic_client_reg_url d)) of
        (Inr a, Inr t, Inr r) \<Rightarrow>
          Inr \<lparr> oauth2_auth_url = a, oauth2_token_url = t, oauth2_dynamic_client_reg_url = r,
                http_basic_supported = http_basic_supported d,
                supported_oauth2_flows = supported_oauth2_flows d \<rparr>
      | (r1, r2, r3) \<Rightarrow> Inl (ValidationError (errors_of r1 @ errors_of r2 @ errors_of r3)))"

section \<open>Handlers\<close>

text \<open>
  \<^verbatim>\<open>
  async def get_versions():
      versions = [Version(**item) for item in fake_db]
      return Versions(versions=versions)
  \<close>
  The comprehension builds the instances from left to right; the first exception ends it.
\<close>

fun comprehension :: "('a \<Rightarrow> error + 'b) \<Rightarrow> 'a list \<Rightarrow> error + 'b list" where
  "comprehension f [] = Inr []"
| "comprehension f (x # xs) =
     (case f x of
        Inl e \<Rightarrow> Inl e
      | Inr y \<Rightarrow> (case comprehension f xs of Inl e \<Rightarrow> Inl e | Inr ys \<Rightarrow> Inr (y # ys)))"

definition get_versions ::
  "(string \<Rightarrow> string option) \<Rightarrow> server_state \<Rightarrow> (error + Versions) \<times> server_state" where
  "get_versions url s =
     (case comprehension (Version_init url) (fake_db s) of
        Inl e \<Rightarrow> (Inl e, s)
      | Inr vs \<Rightarrow> (Inr \<lparr> versions = vs \<rparr>, s))"

text \<open>
  \<^verbatim>\<open>
  async def get_auth():
      return AuthenticationInGet.Config.schema_extra['example']
  \<close>
  The function has no parameter: the \<open>version\<close> captured from the path is not passed.
\<close>

definition get_auth :: "server_state \<Rightarrow> (error + AuthenticationInGet) \<times> server_state" where
  "get_auth s = (Inr (schema_example s), s)"

section \<open>Serialisation of the response models\<close>

text \<open>
  Neither route sets \<open>response_model_exclude_unset\<close>, \<open>response_model_exclude_defaults\<close>
  or \<open>response_model_exclude_none\<close>, so the encoder emits every declared field, in
  declaration order, and an absent optional field as \<open>null\<close>.
\<close>

definition json_opt :: "('a \<Rightarrow> json) \<Rightarrow> 'a option \<Rightarrow> json" where
  "json_opt enc v = (case v of None \<Rightarrow> JNull | Some x \<Rightarrow> enc x)"

definition json_Version :: "Version \<Rightarrow> json" where
  "json_Version v =
     JObject [(''version_id'', JString (version_id v)),
              (''detailed_version'', json_opt JString (detailed_version v))]"

definition json_Versions :: "Versions \<Rightarrow> json" where
  "json_Versions vs = JObject [(''versions'', JArray (map json_Version (versions vs)))]"

definition json_AuthenticationInGet :: "AuthenticationInGet \<Rightarrow> json" where
  "json_AuthenticationInGet a =
     JObject [(''oauth2_auth_url'', json_opt JString (oauth2_auth_url a)),
              (''oauth2_token_url'', json_opt JString (oauth2_token_url a)),
              (''oauth2_dynamic_client_reg_url'', json_opt JString (oauth2_dynamic_client_reg_url a)),
              (''http_basic_supported'', json_opt JBool (http_basic_supported a)),
              (''supported_oauth2_flows'',
                 json_opt (\<lambda>fs. JArray (map JString fs)) (supported_oauth2_flows a))]"

section \<open>Routing\<close>

text \<open>
  The routes are matched against the decoded path of the request, as the framework
  does for the templates given to \<open>router.get\<close>. A path template such as
  \<open>/{version}/auth\<close> is compiled into literal pieces and parameters. A parameter
  without a convertor matches one or more characters other than \<open>/\<close>. The compiled
  pattern is anchored at both ends; its closing \<open>$\<close> is satisfied at the end of the path
  and also just before a single newline character that ends the path. In the templates
  of this application a parameter is followed by \<open>/\<close>, so the longest run of
  characters other than \<open>/\<close> is the only value it can take.
\<close>

datatype piece = Lit string | Param string

function compile_path :: "string \<Rightarrow> piece list" where
  "compile_path [] = []"
| "compile_path (c # cs) =
     (if c = CHR ''{''
      then Param (takeWhile (\<lambda>x. x \<noteq> CHR ''}'') cs)
             # compile_path (drop 1 (dropWhile (\<lambda>x. x \<noteq> CHR ''}'') cs))
      else Lit (c # takeWhile (\<lambda>x. x \<noteq> CHR ''{'') cs)
             # compile_path (dropWhile (\<lambda>x. x \<noteq> CHR ''{'') cs))"
  by pat_completeness auto
termination
  by (relation "measure length")
     (auto simp: less_Suc_eq_le length_dropWhile_le intro: le_trans [OF diff_le_self])

fun route_match :: "piece list \<Rightarrow> string \<Rightarrow> (string \<times> string) list option" where
  "route_match [] p = (if p = [] \<or> p = [CHR 0x0A] then Some [] else None)"
| "route_match (Lit l # ps) p =
     (if take (length l) p = l then route_match ps (drop (length l) p) else None)"
| "route_match (Param n # ps) p =
     (let v = takeWhile (\<lambda>x. x \<noteq> CHR ''/'') p in
      if v = [] then None
      else map_option (\<lambda>params. (n, v) # params)
             (route_match ps (dropWhile (\<lambda>x. x \<noteq> CHR ''/'') p)))"

text \<open>
  The endpoints of the application: the four documentation routes that \<open>FastAPI(...)\<close>
  registers when \<open>openapi_url\<close>, \<open>docs_url\<close> and \<open>redoc_url\<close> keep their defaults, as in
  \<^verbatim>\<open>app = FastAPI(title='BCF REST API', description=..., version='2.1')\<close>,
  and the two handlers of the router.
\<close>

datatype endpoint =
    OpenAPI | SwaggerUI | SwaggerUIRedirect | ReDoc
  | GetVersions | GetAuth

text \<open>
  \<^verbatim>\<open>
  @router.get("/versions", response_model=Versions, ...)
  @router.get("/{version}/auth", response_model=AuthenticationInGet, ...)
  app.include_router(router, prefix='/bcf')
  \<close>
\<close>

definition router_routes :: "(string \<times> endpoint) list" where
  "router_routes = [(''/versions'', GetVersions), (''/{version}/auth'', GetAuth)]"

definition include_router :: "(string \<times> endpoint) list \<Rightarrow> string \<Rightarrow> (string \<times> endpoint) list" where
  "include_router routes prefix = map (\<lambda>(path, ep). (prefix @ path, ep)) routes"

definition app_routes :: "(string \<times> endpoint) list" where
  "app_routes =
     [(''/openapi.json'', OpenAPI), (''/docs'', SwaggerUI),
      (''/docs/oauth2-redirect'', SwaggerUIRedirect), (''/redoc'', ReDoc)]
     @ include_router router_routes ''/bcf''"

text \<open>The routes are tried in registration order; the first one that matches is taken.\<close>

fun resolve ::
  "(string \<times> endpoint) list \<Rightarrow> string \<Rightarrow> (endpoint \<times> (string \<times> string) list) option" where
  "resolve [] p = None"
| "resolve ((template, ep) # routes) p =
     (case route_match (compile_path template) p of
        Some params \<Rightarrow> Some (ep, params)
      | None \<Rightarrow> resolve routes p)"

section \<open>Responses\<close>

text \<open>
  A response is a status code and a content. \<open>Document\<close> stands for the page or schema
  that a documentation endpoint generates, \<open>Redirect\<close> for an empty body with a
  \<open>Location\<close> header of the given path. The bytes of a JSON body are a function of the
  JSON value alone.
\<close>

datatype content = JSON json | Text string | Redirect string | Document endpoint

datatype response = Response (status: nat) (content: content)

text \<open>
  Running an endpoint for a GET request. An exception that leaves the handler, and a
  return value that fails the validation against the response model, both end in the
  server-error response; otherwise the encoded model is sent with status 200.
  The models returned by \<open>get_versions\<close> are validated instances already, on which the
  validation against the response model changes nothing.
\<close>

definition internal_server_error :: response where
  "internal_server_error = Response 500 (Text ''Internal Server Error'')"

definition not_found :: response where
  "not_found = Response 404 (JSON (JObject [(''detail'', JString ''Not Found'')]))"

fun run_endpoint ::
  "(string \<Rightarrow> string option) \<Rightarrow> endpoint \<Rightarrow> (string \<times> string) list \<Rightarrow> server_state
     \<Rightarrow> response \<times> server_state" where
  "run_endpoint url GetVersions params s =
     (case get_versions url s of
        (Inl e, s') \<Rightarrow> (internal_server_error, s')
      | (Inr vs, s') \<Rightarrow> (Response 200 (JSON (json_Versions vs)), s'))"
| "run_endpoint url GetAuth params s =
     (case get_auth s of
        (Inl e, s') \<Rightarrow> (internal_server_error, s')
      | (Inr d, s') \<Rightarrow>
          (case AuthenticationInGet_validate url d of
             Inl e \<Rightarrow> (internal_server_error, s')
           | Inr a \<Rightarrow> (Response 200 (JSON (json_AuthenticationInGet a)), s')))"
| "run_endpoint url ep params s = (Response 200 (Document ep), s)"

text \<open>
  Dispatch of a GET request on a path. When no route matches and the path is not \<open>/\<close>,
  the router tries the path with its trailing slashes removed, or with one slash added
  when it has none, and answers with a redirect (307) when a route matches that;
  otherwise the request is answered with 404.
\<close>

definition rstrip_slash :: "string \<Rightarrow> string" where
  "rstrip_slash p = rev (dropWhile (\<lambda>x. x = CHR ''/'') (rev p))"

definition redirect_path :: "string \<Rightarrow> string" where
  "redirect_path p = (if p \<noteq> [] \<and> last p = CHR ''/'' then rstrip_slash p else p @ ''/'')"

definition handle_get ::
  "(string \<Rightarrow> string option) \<Rightarrow> server_state \<Rightarrow> string \<Rightarrow> response \<times> server_state" where
  "handle_get url s p =
     (case resolve app_routes p of
        Some (ep, params) \<Rightarrow> run_endpoint url ep params s
      | None \<Rightarrow>
          if p \<noteq> ''/'' \<and> resolve app_routes (redirect_path p) \<noteq> None
          then (Response 307 (Redirect (redirect_path p)), s)
          else (not_found, s))"

text \<open>A sequence of GET requests, each served in the state the previous one left.\<close>

fun serve ::
  "(string \<Rightarrow> string option) \<Rightarrow> server_state \<Rightarrow> string list \<Rightarrow> response list \<times> server_state" where
  "serve url s [] = ([], s)"
| "serve url s (p # ps) =
     (case handle_get url s p of
        (r, s') \<Rightarrow> (case serve url s' ps of (rs, s'') \<Rightarrow> (r # rs, s'')))"

text \<open>
  A sample URL validator, used to run the model on concrete inputs: it accepts the
  strings that start with \<open>http://\<close> or \<open>https://\<close> followed by at least one character and
  contain no space, and stores them unchanged.
\<close>

definition sample_url :: "string \<Rightarrow> string option" where
  "sample_url s =
     (if (take 7 s = ''http://'' \<and> 7 < length s \<or> take 8 s = ''https://'' \<and> 8 < length s)
         \<and> CHR '' '' \<notin> set s
      then Some s else None)"

section \<open>Notions used in the statements\<close>

text \<open>
  An entry of the table passes the validation of \<open>Version\<close> when it has a \<open>version_id\<close>
  and its \<open>detailed_version\<close>, if there is one, is accepted by the URL validator.
\<close>

definition well_formed_entry :: "(string \<Rightarrow> string option) \<Rightarrow> dict \<Rightarrow> bool" where
  "well_formed_entry url item =
     (map_of item ''version_id'' \<noteq> None \<and>
      (case map_of item ''detailed_version'' of None \<Rightarrow> True | Some u \<Rightarrow> url u \<noteq> None))"

text \<open>The member of a JSON object under a key, and the JSON body of a response.\<close>

definition object_member :: "json \<Rightarrow> string \<Rightarrow> json option" where
  "object_member j k = (case j of JObject ms \<Rightarrow> map_of ms k | _ \<Rightarrow> None)"

definition body_json :: "response \<Rightarrow> json option" where
  "body_json r = (case content r of JSON j \<Rightarrow> Some j | _ \<Rightarrow> None)"

text \<open>
  A property is present in a response when the body is a JSON object that has a member
  of that name whose value is not \<open>null\<close>.
\<close>

definition member_present :: "string \<Rightarrow> response \<Rightarrow> bool" where
  "member_present k r =
     (case body_json r of
        None \<Rightarrow> False
      | Some j \<Rightarrow> (case object_member j k of None \<Rightarrow> False | Some v \<Rightarrow> v \<noteq> JNull))"






text \<open>A path without the single newline character that may end it.\<close>

definition chop_newline :: "string \<Rightarrow> string" where
  "chop_newline p = (if p \<noteq> [] \<and> last p = CHR 0x0A then butlast p else p)"

section \<open>Properties of the route matcher\<close>

lemma route_match_Lit_iff:
  "route_match (Lit l # ps) p = Some params \<longleftrightarrow> (\<exists>q. p = l @ q \<and> route_match ps q = Some params)"
proof
  assume m: "route_match (Lit l # ps) p = Some params"
  then have "take (length l) p = l" and "route_match ps (drop (length l) p) = Some params"
    by (simp_all split: if_splits)
  moreover have "p = take (length l) p @ drop (length l) p" by simp
  ultimately show "\<exists>q. p = l @ q \<and> route_match ps q = Some params" by metis
next
  assume "\<exists>q. p = l @ q \<and> route_match ps q = Some params"
  then show "route_match (Lit l # ps) p = Some params" by auto
qed

lemma takeWhile_until_absent:
  "c \<notin> set v \<Longrightarrow> takeWhile (\<lambda>x. x \<noteq> c) (v @ r) = v @ takeWhile (\<lambda>x. x \<noteq> c) r"
  by (induction v) auto

lemma dropWhile_until_absent:
  "c \<notin> set v \<Longrightarrow> dropWhile (\<lambda>x. x \<noteq> c) (v @ r) = dropWhile (\<lambda>x. x \<noteq> c) r"
  by (induction v) auto

lemma route_match_Param_iff:
  "route_match (Param n # ps) p = Some params \<longleftrightarrow>
     (\<exists>v r rest. p = v @ r \<and> v \<noteq> [] \<and> CHR ''/'' \<notin> set v \<and> (r = [] \<or> hd r = CHR ''/'')
        \<and> route_match ps r = Some rest \<and> params = (n, v) # rest)"
proof
  define v where "v = takeWhile (\<lambda>x. x \<noteq> CHR ''/'') p"
  define r where "r = dropWhile (\<lambda>x. x \<noteq> CHR ''/'') p"
  assume "route_match (Param n # ps) p = Some params"
  then have "v \<noteq> []" and "map_option (\<lambda>rest. (n, v) # rest) (route_match ps r) = Some params"
    by (simp_all add: v_def r_def Let_def split: if_splits)
  then obtain rest where "route_match ps r = Some rest" and "params = (n, v) # rest"
    by auto
  moreover have "p = v @ r" by (simp add: v_def r_def)
  moreover have "CHR ''/'' \<notin> set v"
    using set_takeWhileD [of "CHR ''/''" "\<lambda>x. x \<noteq> CHR ''/''" p] by (auto simp: v_def)
  moreover have "r = [] \<or> hd r = CHR ''/''"
    using hd_dropWhile [of "\<lambda>x. x \<noteq> CHR ''/''" p] by (auto simp: r_def)
  ultimately show "\<exists>v r rest. p = v @ r \<and> v \<noteq> [] \<and> CHR ''/'' \<notin> set v \<and> (r = [] \<or> hd r = CHR ''/'')
        \<and> route_match ps r = Some rest \<and> params = (n, v) # rest"
    using \<open>v \<noteq> []\<close> by blast
next
  assume "\<exists>v r rest. p = v @ r \<and> v \<noteq> [] \<and> CHR ''/'' \<notin> set v \<and> (r = [] \<or> hd r = CHR ''/'')
        \<and> route_match ps r = Some rest \<and> params = (n, v) # rest"
  then obtain v r rest where p: "p = v @ r" and ne: "v \<noteq> []" and ns: "CHR ''/'' \<notin> set v"
    and r: "r = [] \<or> hd r = CHR ''/''" and m: "route_match ps r = Some rest"
    and params: "params = (n, v) # rest"
    by blast
  have tw: "takeWhile (\<lambda>x. x \<noteq> CHR ''/'') p = v"
    using ns r unfolding p by (cases r) (auto simp: takeWhile_until_absent)
  have dw: "dropWhile (\<lambda>x. x \<noteq> CHR ''/'') p = r"
    using ns r unfolding p by (cases r) (auto simp: dropWhile_until_absent)
  show "route_match (Param n # ps) p = Some params"
    using ne m params by (simp add: tw dw)
qed

lemma route_match_Nil_iff:
  "route_match [] p = Some params \<longleftrightarrow> (p = [] \<or> p = [CHR 0x0A]) \<and> params = []"
  by auto

lemma route_match_literal:
  "route_match [Lit l] p = Some params \<longleftrightarrow> (p = l \<or> p = l @ [CHR 0x0A]) \<and> params = []"
  by (auto simp only: route_match_Lit_iff route_match_Nil_iff)

lemma compiled_routes:
  "compile_path ''/openapi.json'' = [Lit ''/openapi.json'']"
  "compile_path ''/docs'' = [Lit ''/docs'']"
  "compile_path ''/docs/oauth2-redirect'' = [Lit ''/docs/oauth2-redirect'']"
  "compile_path ''/redoc'' = [Lit ''/redoc'']"
  "compile_path ''/bcf/versions'' = [Lit ''/bcf/versions'']"
  "compile_path ''/bcf/{version}/auth'' = [Lit ''/bcf/'', Param ''version'', Lit ''/auth'']"
  by simp_all

lemma auth_match_iff:
  "route_match (compile_path ''/bcf/{version}/auth'') p = Some params \<longleftrightarrow>
     (\<exists>v. v \<noteq> [] \<and> CHR ''/'' \<notin> set v
         \<and> (p = ''/bcf/'' @ v @ ''/auth'' \<or> p = ''/bcf/'' @ v @ ''/auth'' @ [CHR 0x0A])
         \<and> params = [(''version'', v)])"
  unfolding compiled_routes
  by (simp only: route_match_Lit_iff route_match_Param_iff route_match_Nil_iff) auto

lemma route_match_literal_eq:
  "route_match [Lit l] p = (if p = l \<or> p = l @ [CHR 0x0A] then Some [] else None)"
  using route_match_literal [of l p] by (cases "route_match [Lit l] p") auto

lemma app_routes_unfold:
  "app_routes =
     [(''/openapi.json'', OpenAPI), (''/docs'', SwaggerUI),
      (''/docs/oauth2-redirect'', SwaggerUIRedirect), (''/redoc'', ReDoc),
      (''/bcf/versions'', GetVersions), (''/bcf/{version}/auth'', GetAuth)]"
  by (simp add: app_routes_def include_router_def router_routes_def)

lemma resolve_app_routes:
  "resolve app_routes p =
     (if p = ''/openapi.json'' \<or> p = ''/openapi.json'' @ [CHR 0x0A] then Some (OpenAPI, [])
      else if p = ''/docs'' \<or> p = ''/docs'' @ [CHR 0x0A] then Some (SwaggerUI, [])
      else if p = ''/docs/oauth2-redirect'' \<or> p = ''/docs/oauth2-redirect'' @ [CHR 0x0A]
        then Some (SwaggerUIRedirect, [])
      else if p = ''/redoc'' \<or> p = ''/redoc'' @ [CHR 0x0A] then Some (ReDoc, [])
      else if p = ''/bcf/versions'' \<or> p = ''/bcf/versions'' @ [CHR 0x0A] then Some (GetVersions, [])
      else map_option (Pair GetAuth) (route_match (compile_path ''/bcf/{version}/auth'') p))"
  unfolding app_routes_unfold resolve.simps compiled_routes(1-5) route_match_literal_eq
  by (simp split: option.splits)

lemma append_slash_neq: "CHR ''/'' \<notin> set w \<Longrightarrow> v @ CHR ''/'' # r \<noteq> w"
  by auto

lemma auth_path_not_literal:
  assumes "p = ''/bcf/'' @ v @ ''/auth'' \<or> p = ''/bcf/'' @ v @ ''/auth'' @ [CHR 0x0A]"
  shows "p \<noteq> ''/openapi.json''" "p \<noteq> ''/openapi.json'' @ [CHR 0x0A]"
    "p \<noteq> ''/docs''" "p \<noteq> ''/docs'' @ [CHR 0x0A]"
    "p \<noteq> ''/docs/oauth2-redirect''" "p \<noteq> ''/docs/oauth2-redirect'' @ [CHR 0x0A]"
    "p \<noteq> ''/redoc''" "p \<noteq> ''/redoc'' @ [CHR 0x0A]"
    "p \<noteq> ''/bcf/versions''" "p \<noteq> ''/bcf/versions'' @ [CHR 0x0A]"
proof -
  have v: "v @ CHR ''/'' # r \<noteq> ''versions''" "v @ CHR ''/'' # r \<noteq> ''versions'' @ [CHR 0x0A]" for r
    using append_slash_neq [of "''versions''" v r]
      append_slash_neq [of "''versions'' @ [CHR 0x0A]" v r] by simp_all
  show "p \<noteq> ''/bcf/versions''" "p \<noteq> ''/bcf/versions'' @ [CHR 0x0A]"
    using assms v by auto
  show "p \<noteq> ''/openapi.json''" "p \<noteq> ''/openapi.json'' @ [CHR 0x0A]"
    "p \<noteq> ''/docs''" "p \<noteq> ''/docs'' @ [CHR 0x0A]"
    "p \<noteq> ''/docs/oauth2-redirect''" "p \<noteq> ''/docs/oauth2-redirect'' @ [CHR 0x0A]"
    "p \<noteq> ''/redoc''" "p \<noteq> ''/redoc'' @ [CHR 0x0A]"
    using assms by auto
qed

lemma resolve_auth:
  assumes "route_match (compile_path ''/bcf/{version}/auth'') p = Some params"
  shows "resolve app_routes p = Some (GetAuth, params)"
proof -
  from assms obtain v
    where p: "p = ''/bcf/'' @ v @ ''/auth'' \<or> p = ''/bcf/'' @ v @ ''/auth'' @ [CHR 0x0A]"
    unfolding auth_match_iff by blast
  show ?thesis
    unfolding resolve_app_routes using assms auth_path_not_literal [OF p] by simp
qed

lemma resolve_versions: "resolve app_routes ''/bcf/versions'' = Some (GetVersions, [])"
  unfolding resolve_app_routes by simp

lemma run_endpoint_state: "snd (run_endpoint url ep params s) = s"
  by (cases ep) (simp_all add: get_versions_def get_auth_def split: sum.splits)

lemma handle_get_state: "snd (handle_get url s p) = s"
  by (simp add: handle_get_def run_endpoint_state split: option.splits prod.splits)

lemma handle_get_pair: "handle_get url s p = (fst (handle_get url s p), s)"
  using handle_get_state [of url s p] by (metis prod.collapse)

lemma serve_eq: "serve url s ps = (map (\<lambda>p. fst (handle_get url s p)) ps, s)"
proof (induction ps)
  case Nil
  show ?case by simp
next
  case (Cons p ps)
  show ?case
    by (subst serve.simps, subst handle_get_pair) (simp add: Cons.IH)
qed

section \<open>Properties of the handlers\<close>

lemma Version_init_well_formed:
  assumes "well_formed_entry url item"
  shows "Version_init url item =
           Inr \<lparr> version_id = the (map_of item ''version_id''),
                 detailed_version = Option.bind (map_of item ''detailed_version'') url \<rparr>"
  using assms
  by (auto simp: well_formed_entry_def Version_init_def required_str_def optional_url_def
           split: option.splits)

lemma Version_init_malformed_url:
  assumes "map_of item ''detailed_version'' = Some u" and "url u = None"
  shows "\<exists>e. Version_init url item = Inl e"
  using assms
  by (simp add: Version_init_def required_str_def optional_url_def split: option.splits)

lemma comprehension_all_Inr:
  assumes "\<forall>x\<in>set xs. f x = Inr (g x)"
  shows "comprehension f xs = Inr (map g xs)"
  using assms by (induction xs) simp_all

lemma comprehension_some_Inl:
  assumes "x \<in> set xs" and "f x = Inl e"
  shows "\<exists>e'. comprehension f xs = Inl e'"
  using assms by (induction xs) (auto split: sum.splits)

lemma versions_malformed:
  assumes "item \<in> set (fake_db s)" and "map_of item ''detailed_version'' = Some u" and "url u = None"
  shows "handle_get url s ''/bcf/versions'' = (internal_server_error, s)"
proof -
  obtain e where "Version_init url item = Inl e"
    using Version_init_malformed_url [of item u url] assms(2,3) by blast
  then obtain e' where "comprehension (Version_init url) (fake_db s) = Inl e'"
    using comprehension_some_Inl [of item "fake_db s" "Version_init url" e] assms(1) by blast
  then show ?thesis
    by (simp add: handle_get_def resolve_versions get_versions_def)
qed

lemma versions_well_formed:
  assumes "\<forall>item\<in>set (fake_db s). well_formed_entry url item"
  shows "handle_get url s ''/bcf/versions'' =
           (Response 200 (JSON (JObject [(''versions'',
              JArray (map (\<lambda>item.
                 JObject [(''version_id'', JString (the (map_of item ''version_id''))),
                          (''detailed_version'',
                             json_opt JString (Option.bind (map_of item ''detailed_version'') url))])
               (fake_db s)))])), s)"
proof -
  have "comprehension (Version_init url) (fake_db s) =
          Inr (map (\<lambda>item. \<lparr> version_id = the (map_of item ''version_id''),
                 detailed_version = Option.bind (map_of item ''detailed_version'') url \<rparr>) (fake_db s))"
    using assms by (intro comprehension_all_Inr) (simp add: Version_init_well_formed)
  then show ?thesis
    by (simp add: handle_get_def resolve_versions get_versions_def json_Versions_def
          json_Version_def comp_def)
qed

lemma auth_response:
  assumes "route_match (compile_path ''/bcf/{version}/auth'') p = Some params"
  shows "handle_get url s p =
           (case AuthenticationInGet_validate url (schema_example s) of
              Inl e \<Rightarrow> (internal_server_error, s)
            | Inr a \<Rightarrow> (Response 200 (JSON (json_AuthenticationInGet a)), s))"
  by (simp add: handle_get_def resolve_auth [OF assms] get_auth_def)

lemma initial_example_valid:
  assumes "url ''https://example.com/bcf/oauth2/auth'' = Some ''https://example.com/bcf/oauth2/auth''"
      and "url ''https://example.com/bcf/oauth2/token'' = Some ''https://example.com/bcf/oauth2/token''"
      and "url ''https://example.com/bcf/oauth2/reg'' = Some ''https://example.com/bcf/oauth2/reg''"
  shows "AuthenticationInGet_validate url (schema_example initial_state) = Inr (schema_example initial_state)"
  using assms by (simp add: AuthenticationInGet_validate_def optional_url_def initial_state_def)

section \<open>Paths that match no route\<close>

lemma rstrip_slash_id:
  assumes "p = [] \<or> last p \<noteq> CHR ''/''"
  shows "rstrip_slash p = p"
  using assms by (cases p rule: rev_cases) (simp_all add: rstrip_slash_def)

lemma chop_newline_snoc: "chop_newline (q @ [CHR 0x0A]) = q"
  by (simp add: chop_newline_def)

lemma chop_newline_id:
  assumes "q = [] \<or> last q \<noteq> CHR 0x0A"
  shows "chop_newline q = q"
  using assms by (auto simp: chop_newline_def)

lemma chop_newline_neq:
  assumes "chop_newline q \<noteq> l" and "l = [] \<or> last l \<noteq> CHR 0x0A"
  shows "q \<noteq> l \<and> q \<noteq> l @ [CHR 0x0A]"
  using assms chop_newline_id [of l] chop_newline_snoc [of l] by auto

lemma auth_path_last:
  assumes "route_match (compile_path ''/bcf/{version}/auth'') q = Some params"
  shows "q \<noteq> [] \<and> last q \<noteq> CHR ''/''"
proof -
  from assms obtain v
    where "q = ''/bcf/'' @ v @ ''/auth'' \<or> q = ''/bcf/'' @ v @ ''/auth'' @ [CHR 0x0A]"
    unfolding auth_match_iff by blast
  then show ?thesis
  proof
    assume "q = ''/bcf/'' @ v @ ''/auth''"
    then show ?thesis by simp
  next
    assume "q = ''/bcf/'' @ v @ ''/auth'' @ [CHR 0x0A]"
    then show ?thesis by simp
  qed
qed

lemma resolve_no_trailing_slash:
  assumes "q \<noteq> []" and "last q = CHR ''/''"
  shows "resolve app_routes q = None"
proof -
  have "route_match (compile_path ''/bcf/{version}/auth'') q = None"
  proof (cases "route_match (compile_path ''/bcf/{version}/auth'') q")
    case None
    then show ?thesis .
  next
    case (Some params)
    from auth_path_last [OF this] assms(2) show ?thesis by simp
  qed
  moreover have "q \<noteq> ''/openapi.json''" "q \<noteq> ''/openapi.json'' @ [CHR 0x0A]"
    "q \<noteq> ''/docs''" "q \<noteq> ''/docs'' @ [CHR 0x0A]"
    "q \<noteq> ''/docs/oauth2-redirect''" "q \<noteq> ''/docs/oauth2-redirect'' @ [CHR 0x0A]"
    "q \<noteq> ''/redoc''" "q \<noteq> ''/redoc'' @ [CHR 0x0A]"
    "q \<noteq> ''/bcf/versions''" "q \<noteq> ''/bcf/versions'' @ [CHR 0x0A]"
    using assms(2) by auto
  ultimately show ?thesis
    unfolding resolve_app_routes by simp
qed

lemma resolve_unknown:
  assumes "chop_newline q \<notin>
             {''/openapi.json'', ''/docs'', ''/docs/oauth2-redirect'', ''/redoc'', ''/bcf/versions''}"
      and "\<forall>v. v \<noteq> [] \<and> CHR ''/'' \<notin> set v \<longrightarrow> chop_newline q \<noteq> ''/bcf/'' @ v @ ''/auth''"
  shows "resolve app_routes q = None"
proof -
  have "route_match (compile_path ''/bcf/{version}/auth'') q = None"
  proof (cases "route_match (compile_path ''/bcf/{version}/auth'') q")
    case None
    then show ?thesis .
  next
    case (Some params)
    then obtain v where v: "v \<noteq> []" "CHR ''/'' \<notin> set v"
      and q: "q = ''/bcf/'' @ v @ ''/auth'' \<or> q = (''/bcf/'' @ v @ ''/auth'') @ [CHR 0x0A]"
      unfolding auth_match_iff by auto
    have "chop_newline (''/bcf/'' @ v @ ''/auth'') = ''/bcf/'' @ v @ ''/auth''"
      by (rule chop_newline_id) simp
    with q have eq: "chop_newline q = ''/bcf/'' @ v @ ''/auth''"
      using chop_newline_snoc [of "''/bcf/'' @ v @ ''/auth''"] by metis
    have "chop_newline q \<noteq> ''/bcf/'' @ v @ ''/auth''"
      using assms(2) [rule_format, of v, OF conjI [OF v]] .
    from this eq show ?thesis by (rule notE)
  qed
  moreover have "q \<noteq> ''/openapi.json'' \<and> q \<noteq> ''/openapi.json'' @ [CHR 0x0A]"
    using assms(1) by (intro chop_newline_neq) simp_all
  moreover have "q \<noteq> ''/docs'' \<and> q \<noteq> ''/docs'' @ [CHR 0x0A]"
    using assms(1) by (intro chop_newline_neq) simp_all
  moreover have "q \<noteq> ''/docs/oauth2-redirect'' \<and> q \<noteq> ''/docs/oauth2-redirect'' @ [CHR 0x0A]"
    using assms(1) by (intro chop_newline_neq) simp_all
  moreover have "q \<noteq> ''/redoc'' \<and> q \<noteq> ''/redoc'' @ [CHR 0x0A]"
    using assms(1) by (intro chop_newline_neq) simp_all
  moreover have "q \<noteq> ''/bcf/versions'' \<and> q \<noteq> ''/bcf/versions'' @ [CHR 0x0A]"
    using assms(1) by (intro chop_newline_neq) simp_all
  ultimately show ?thesis
    unfolding resolve_app_routes by simp
qed

section \<open>The versions endpoint\<close>

text \<open>
  Claim C1. A GET request to \<open>/bcf/versions\<close> is answered with status 200 and the body
  \<open>{"versions": [{"version_id": "1.0", "detailed_version": "https://github.com/BuildingSMART/BCF-API"},
  {"version_id": "2.1", "detailed_version": "https://github.com/BuildingSMART/BCF-API"}]}\<close>,
  the two entries in this order. The only fact used about the URL validator is that it
  accepts the URL of the table and stores it unchanged.
\<close>

theorem versions_fixed_response:
  assumes "url ''https://github.com/BuildingSMART/BCF-API'' = Some ''https://github.com/BuildingSMART/BCF-API''"
  shows "fst (handle_get url initial_state ''/bcf/versions'') =
           Response 200 (JSON (JObject [(''versions'', JArray
             [JObject [(''version_id'', JString ''1.0''),
                       (''detailed_version'', JString ''https://github.com/BuildingSMART/BCF-API'')],
              JObject [(''version_id'', JString ''2.1''),
                       (''detailed_version'', JString ''https://github.com/BuildingSMART/BCF-API'')]])]))"
proof -
  have "\<forall>item\<in>set (fake_db initial_state). well_formed_entry url item"
    using assms by (simp add: initial_state_def well_formed_entry_def)
  then have "fst (handle_get url initial_state ''/bcf/versions'') =
           Response 200 (JSON (JObject [(''versions'',
              JArray (map (\<lambda>item.
                 JObject [(''version_id'', JString (the (map_of item ''version_id''))),
                          (''detailed_version'',
                             json_opt JString (Option.bind (map_of item ''detailed_version'') url))])
               (fake_db initial_state)))]))"
    by (simp only: versions_well_formed [of initial_state url] fst_conv)
  also have "fake_db initial_state =
         [ [(''version_id'', ''1.0''),
            (''detailed_version'', ''https://github.com/BuildingSMART/BCF-API'')],
           [(''version_id'', ''2.1''),
            (''detailed_version'', ''https://github.com/BuildingSMART/BCF-API'')] ]"
    by (simp add: initial_state_def)
  finally show ?thesis
    using assms by (simp add: json_opt_def)
qed

text \<open>The theorem at the sample validator.\<close>

theorem versions_fixed_response_witness:
  "fst (handle_get sample_url initial_state ''/bcf/versions'') =
           Response 200 (JSON (JObject [(''versions'', JArray
             [JObject [(''version_id'', JString ''1.0''),
                       (''detailed_version'', JString ''https://github.com/BuildingSMART/BCF-API'')],
              JObject [(''version_id'', JString ''2.1''),
                       (''detailed_version'', JString ''https://github.com/BuildingSMART/BCF-API'')]])]))"
proof -
  have "sample_url ''https://github.com/BuildingSMART/BCF-API'' = Some ''https://github.com/BuildingSMART/BCF-API''"
    by (simp add: sample_url_def)
  from versions_fixed_response [of sample_url, OF this] show ?thesis .
qed

section \<open>The auth endpoint\<close>

text \<open>
  Claim C2. Every GET request whose path matches \<open>/bcf/{version}/auth\<close> is answered
  with the payload of the schema example: the three OAuth2 URLs, \<open>http_basic_supported\<close>
  true and the three flows, in the order of the field declarations. The URL validator
  is assumed to accept the three URLs of the example and to store them unchanged.
\<close>

theorem auth_fixed_payload:
  assumes "url ''https://example.com/bcf/oauth2/auth'' = Some ''https://example.com/bcf/oauth2/auth''"
      and "url ''https://example.com/bcf/oauth2/token'' = Some ''https://example.com/bcf/oauth2/token''"
      and "url ''https://example.com/bcf/oauth2/reg'' = Some ''https://example.com/bcf/oauth2/reg''"
      and "route_match (compile_path ''/bcf/{version}/auth'') p = Some params"
  shows "fst (handle_get url initial_state p) =
           Response 200 (JSON (JObject
             [(''oauth2_auth_url'', JString ''https://example.com/bcf/oauth2/auth''),
              (''oauth2_token_url'', JString ''https://example.com/bcf/oauth2/token''),
              (''oauth2_dynamic_client_reg_url'', JString ''https://example.com/bcf/oauth2/reg''),
              (''http_basic_supported'', JBool True),
              (''supported_oauth2_flows'', JArray
                 [JString ''authorization_code_grant'', JString ''implicit_grant'',
                  JString ''resource_owner_password_credentials_grant''])]))"
  unfolding auth_response [of p params url, OF assms(4)] initial_example_valid [of url, OF assms(1-3)]
  by (simp add: json_AuthenticationInGet_def json_opt_def initial_state_def)

text \<open>The theorem at the sample validator and the path \<open>/bcf/2.1/auth\<close>.\<close>

theorem auth_fixed_payload_witness:
  "route_match (compile_path ''/bcf/{version}/auth'') ''/bcf/2.1/auth'' = Some [(''version'', ''2.1'')]
   \<and> fst (handle_get sample_url initial_state ''/bcf/2.1/auth'') =
           Response 200 (JSON (JObject
             [(''oauth2_auth_url'', JString ''https://example.com/bcf/oauth2/auth''),
              (''oauth2_token_url'', JString ''https://example.com/bcf/oauth2/token''),
              (''oauth2_dynamic_client_reg_url'', JString ''https://example.com/bcf/oauth2/reg''),
              (''http_basic_supported'', JBool True),
              (''supported_oauth2_flows'', JArray
                 [JString ''authorization_code_grant'', JString ''implicit_grant'',
                  JString ''resource_owner_password_credentials_grant''])]))"
proof -
  have m: "route_match (compile_path ''/bcf/{version}/auth'') ''/bcf/2.1/auth'' = Some [(''version'', ''2.1'')]"
    by (simp add: compiled_routes)
  have u: "sample_url ''https://example.com/bcf/oauth2/auth'' = Some ''https://example.com/bcf/oauth2/auth''"
    "sample_url ''https://example.com/bcf/oauth2/token'' = Some ''https://example.com/bcf/oauth2/token''"
    "sample_url ''https://example.com/bcf/oauth2/reg'' = Some ''https://example.com/bcf/oauth2/reg''"
    by (simp_all add: sample_url_def)
  from auth_fixed_payload [of sample_url "''/bcf/2.1/auth''" "[(''version'', ''2.1'')]", OF u m] m
  show ?thesis by simp
qed

text \<open>
  Claim C3, as amended. For any two values \<open>v1\<close> and \<open>v2\<close> of the version segment
  that are not empty and contain no \<open>/\<close>, the GET requests to \<open>/bcf/v1/auth\<close> and
  \<open>/bcf/v2/auth\<close> are both answered with status 200 and with the same response: the
  captured value is never passed to the handler. The URL validator is assumed to accept
  the three URLs of the example unchanged.
\<close>

theorem auth_response_independent_of_version:
  assumes "url ''https://example.com/bcf/oauth2/auth'' = Some ''https://example.com/bcf/oauth2/auth''"
      and "url ''https://example.com/bcf/oauth2/token'' = Some ''https://example.com/bcf/oauth2/token''"
      and "url ''https://example.com/bcf/oauth2/reg'' = Some ''https://example.com/bcf/oauth2/reg''"
      and "v1 \<noteq> []" and "CHR ''/'' \<notin> set v1"
      and "v2 \<noteq> []" and "CHR ''/'' \<notin> set v2"
  shows "status (fst (handle_get url initial_state (''/bcf/'' @ v1 @ ''/auth''))) = 200
         \<and> status (fst (handle_get url initial_state (''/bcf/'' @ v2 @ ''/auth''))) = 200
         \<and> fst (handle_get url initial_state (''/bcf/'' @ v1 @ ''/auth''))
             = fst (handle_get url initial_state (''/bcf/'' @ v2 @ ''/auth''))"
proof -
  have m: "route_match (compile_path ''/bcf/{version}/auth'') (''/bcf/'' @ v @ ''/auth'') = Some [(''version'', v)]"
    if "v \<noteq> []" and "CHR ''/'' \<notin> set v" for v
    using that unfolding auth_match_iff by blast
  have r: "fst (handle_get url initial_state (''/bcf/'' @ v @ ''/auth''))
             = Response 200 (JSON (json_AuthenticationInGet (schema_example initial_state)))"
    if "v \<noteq> []" and "CHR ''/'' \<notin> set v" for v
    unfolding auth_response [of _ _ url, OF m [OF that]] initial_example_valid [of url, OF assms(1-3)]
    by simp
  show ?thesis
    using r [OF assms(4,5)] r [OF assms(6,7)] by simp
qed

text \<open>The theorem at the values \<open>xyz\<close> and \<open>2.1\<close>.\<close>

theorem auth_response_independent_of_version_witness:
  "''xyz'' \<noteq> [] \<and> CHR ''/'' \<notin> set ''xyz'' \<and> ''2.1'' \<noteq> [] \<and> CHR ''/'' \<notin> set ''2.1''
   \<and> status (fst (handle_get sample_url initial_state ''/bcf/xyz/auth'')) = 200
   \<and> status (fst (handle_get sample_url initial_state ''/bcf/2.1/auth'')) = 200
   \<and> fst (handle_get sample_url initial_state ''/bcf/xyz/auth'')
       = fst (handle_get sample_url initial_state ''/bcf/2.1/auth'')"
proof -
  have u: "sample_url ''https://example.com/bcf/oauth2/auth'' = Some ''https://example.com/bcf/oauth2/auth''"
    "sample_url ''https://example.com/bcf/oauth2/token'' = Some ''https://example.com/bcf/oauth2/token''"
    "sample_url ''https://example.com/bcf/oauth2/reg'' = Some ''https://example.com/bcf/oauth2/reg''"
    by (simp_all add: sample_url_def)
  have v: "''xyz'' \<noteq> []" "CHR ''/'' \<notin> set ''xyz''" "''2.1'' \<noteq> []" "CHR ''/'' \<notin> set ''2.1''"
    by simp_all
  from auth_response_independent_of_version [of sample_url "''xyz''" "''2.1''", OF u v]
  show ?thesis by simp
qed

text \<open>
  The claim as written lets the segment be any string. The empty string is one: the
  path \<open>/bcf//auth\<close> matches no route, because a path parameter needs at least one
  character, and the request is answered with 404, while \<open>/bcf/2.1/auth\<close> is answered
  with 200.
\<close>

theorem auth_empty_version_counterexample:
  "fst (handle_get sample_url initial_state (''/bcf/'' @ '''' @ ''/auth'')) = not_found
   \<and> status (fst (handle_get sample_url initial_state (''/bcf/'' @ '''' @ ''/auth''))) = 404
   \<and> status (fst (handle_get sample_url initial_state (''/bcf/'' @ ''2.1'' @ ''/auth''))) = 200"
proof -
  have "resolve app_routes ''/bcf//auth'' = None" "resolve app_routes ''/bcf//auth/'' = None"
    unfolding resolve_app_routes by (simp_all add: compiled_routes)
  then have a: "fst (handle_get sample_url initial_state ''/bcf//auth'') = not_found"
    by (simp add: handle_get_def redirect_path_def)
  have m: "route_match (compile_path ''/bcf/{version}/auth'') ''/bcf/2.1/auth'' = Some [(''version'', ''2.1'')]"
    by (simp add: compiled_routes)
  have b: "status (fst (handle_get sample_url initial_state ''/bcf/2.1/auth'')) = 200"
    unfolding auth_response [of "''/bcf/2.1/auth''" _ sample_url, OF m]
    by (simp add: AuthenticationInGet_validate_def optional_url_def initial_state_def sample_url_def)
  from a b show ?thesis by (simp add: not_found_def)
qed

text \<open>
  Claim C8. In every response to a GET request that matches \<open>/bcf/{version}/auth\<close>,
  \<open>oauth2_auth_url\<close> is present if and only if \<open>oauth2_token_url\<close> is present. This
  holds for every URL validator.
\<close>

theorem auth_urls_paired:
  assumes "route_match (compile_path ''/bcf/{version}/auth'') p = Some params"
  shows "member_present ''oauth2_auth_url'' (fst (handle_get url initial_state p))
         \<longleftrightarrow> member_present ''oauth2_token_url'' (fst (handle_get url initial_state p))"
  unfolding auth_response [of p params url, OF assms]
  by (simp add: AuthenticationInGet_validate_def optional_url_def initial_state_def
        member_present_def body_json_def object_member_def json_AuthenticationInGet_def
        json_opt_def internal_server_error_def errors_of_def
      split: option.splits)

text \<open>
  The theorem at the sample validator and the path \<open>/bcf/2.1/auth\<close>, where both
  properties are present.
\<close>

theorem auth_urls_paired_witness:
  "route_match (compile_path ''/bcf/{version}/auth'') ''/bcf/2.1/auth'' = Some [(''version'', ''2.1'')]
   \<and> member_present ''oauth2_auth_url'' (fst (handle_get sample_url initial_state ''/bcf/2.1/auth''))
   \<and> member_present ''oauth2_token_url'' (fst (handle_get sample_url initial_state ''/bcf/2.1/auth''))"
proof -
  have m: "route_match (compile_path ''/bcf/{version}/auth'') ''/bcf/2.1/auth'' = Some [(''version'', ''2.1'')]"
    by (simp add: compiled_routes)
  have a: "member_present ''oauth2_auth_url'' (fst (handle_get sample_url initial_state ''/bcf/2.1/auth''))"
    unfolding auth_response [of "''/bcf/2.1/auth''" _ sample_url, OF m]
    by (simp add: AuthenticationInGet_validate_def optional_url_def initial_state_def
        member_present_def body_json_def object_member_def json_AuthenticationInGet_def
        json_opt_def sample_url_def)
  from auth_urls_paired [of "''/bcf/2.1/auth''" _ sample_url, OF m] a m
  show ?thesis by blast
qed

section \<open>Validation failures\<close>

text \<open>
  Claim C4. If an entry of the version table has a \<open>detailed_version\<close> that the URL
  validator rejects, a GET request to \<open>/bcf/versions\<close> is answered with status 500 and
  the body \<open>Internal Server Error\<close>, which does not carry the rejected value. If every
  entry of the table is well-formed, the request is answered with status 200.
\<close>

theorem malformed_entry_server_error:
  "((\<exists>item\<in>set (fake_db s). \<exists>u. map_of item ''detailed_version'' = Some u \<and> url u = None)
      \<longrightarrow> fst (handle_get url s ''/bcf/versions'') = Response 500 (Text ''Internal Server Error''))
   \<and> ((\<forall>item\<in>set (fake_db s). well_formed_entry url item)
      \<longrightarrow> status (fst (handle_get url s ''/bcf/versions'')) = 200)"
proof (intro conjI impI)
  assume "\<exists>item\<in>set (fake_db s). \<exists>u. map_of item ''detailed_version'' = Some u \<and> url u = None"
  then obtain item u where "item \<in> set (fake_db s)" "map_of item ''detailed_version'' = Some u" "url u = None"
    by blast
  from versions_malformed [of item s u url, OF this]
  show "fst (handle_get url s ''/bcf/versions'') = Response 500 (Text ''Internal Server Error'')"
    by (simp add: internal_server_error_def)
next
  assume "\<forall>item\<in>set (fake_db s). well_formed_entry url item"
  then show "status (fst (handle_get url s ''/bcf/versions'')) = 200"
    by (simp only: versions_well_formed [of s url] fst_conv response.sel)
qed

text \<open>
  The theorem at a table with the entry \<open>{"version_id": "3.0", "detailed_version":
  "not a url"}\<close>, and at the table of the source.
\<close>

theorem malformed_entry_server_error_witness:
  "map_of [(''version_id'', ''3.0''), (''detailed_version'', ''not a url'')] ''detailed_version'' = Some ''not a url''
   \<and> sample_url ''not a url'' = None
   \<and> fst (handle_get sample_url
            (initial_state\<lparr>fake_db := [[(''version_id'', ''3.0''), (''detailed_version'', ''not a url'')]]\<rparr>)
            ''/bcf/versions'') = Response 500 (Text ''Internal Server Error'')
   \<and> well_formed_entry sample_url (fake_db initial_state ! 0)
   \<and> well_formed_entry sample_url (fake_db initial_state ! 1)
   \<and> status (fst (handle_get sample_url initial_state ''/bcf/versions'')) = 200"
proof -
  let ?bad = "initial_state\<lparr>fake_db := [[(''version_id'', ''3.0''), (''detailed_version'', ''not a url'')]]\<rparr>"
  have b: "\<exists>item\<in>set (fake_db ?bad). \<exists>u. map_of item ''detailed_version'' = Some u \<and> sample_url u = None"
    by (simp add: sample_url_def)
  have w: "well_formed_entry sample_url (fake_db initial_state ! 0)"
    "well_formed_entry sample_url (fake_db initial_state ! 1)"
    by (simp_all add: initial_state_def well_formed_entry_def sample_url_def)
  then have g: "\<forall>item\<in>set (fake_db initial_state). well_formed_entry sample_url item"
    by (simp add: initial_state_def)
  have n: "sample_url ''not a url'' = None" by (simp add: sample_url_def)
  from malformed_entry_server_error [of ?bad sample_url] b
    malformed_entry_server_error [of initial_state sample_url] g w n
  show ?thesis by simp
qed

section \<open>Absent optional fields\<close>



text \<open>No optional field is absent from the data of the program.\<close>

lemma initial_state_nothing_absent:
  "(\<forall>item\<in>set (fake_db initial_state). map_of item ''detailed_version'' \<noteq> None)
   \<and> oauth2_auth_url (schema_example initial_state) \<noteq> None
   \<and> oauth2_token_url (schema_example initial_state) \<noteq> None
   \<and> oauth2_dynamic_client_reg_url (schema_example initial_state) \<noteq> None
   \<and> http_basic_supported (schema_example initial_state) \<noteq> None
   \<and> supported_oauth2_flows (schema_example initial_state) \<noteq> None"
  by (simp add: initial_state_def)

section \<open>Unknown routes\<close>

text \<open>
  Claim C6, as amended. A GET request is answered with status 404 when its path, with
  the trailing slashes removed and then one trailing newline character removed, is none
  of \<open>/openapi.json\<close>, \<open>/docs\<close>, \<open>/docs/oauth2-redirect\<close>, \<open>/redoc\<close> and
  \<open>/bcf/versions\<close> and is not of the form \<open>/bcf/{version}/auth\<close> with a version that
  is not empty and contains no \<open>/\<close>.
\<close>

theorem unknown_path_not_found:
  assumes "chop_newline (rstrip_slash p) \<notin>
             {''/openapi.json'', ''/docs'', ''/docs/oauth2-redirect'', ''/redoc'', ''/bcf/versions''}"
      and "\<forall>v. v \<noteq> [] \<and> CHR ''/'' \<notin> set v
             \<longrightarrow> chop_newline (rstrip_slash p) \<noteq> ''/bcf/'' @ v @ ''/auth''"
  shows "status (fst (handle_get url s p)) = 404"
proof -
  have stripped: "resolve app_routes (rstrip_slash p) = None"
    using resolve_unknown [OF assms] .
  have "resolve app_routes p = None \<and> resolve app_routes (redirect_path p) = None"
  proof (cases "p \<noteq> [] \<and> last p = CHR ''/''")
    case True
    then have "resolve app_routes p = None"
      using resolve_no_trailing_slash [of p] by simp
    moreover have "redirect_path p = rstrip_slash p"
      using True by (simp add: redirect_path_def)
    ultimately show ?thesis using stripped by simp
  next
    case False
    then have "rstrip_slash p = p"
      using rstrip_slash_id [of p] by blast
    moreover have "redirect_path p = p @ ''/''"
      using False by (auto simp: redirect_path_def)
    moreover have "resolve app_routes (p @ ''/'') = None"
      using resolve_no_trailing_slash [of "p @ ''/''"] by simp
    ultimately show ?thesis using stripped by simp
  qed
  then show ?thesis
    by (simp add: handle_get_def not_found_def)
qed

text \<open>The theorem at the path \<open>/bcf/unknown\<close>.\<close>

theorem unknown_path_not_found_witness:
  "chop_newline (rstrip_slash ''/bcf/unknown'') = ''/bcf/unknown''
   \<and> status (fst (handle_get sample_url initial_state ''/bcf/unknown'')) = 404"
proof -
  have r: "chop_newline (rstrip_slash ''/bcf/unknown'') = ''/bcf/unknown''"
    by (simp add: rstrip_slash_def chop_newline_def)
  have a: "chop_newline (rstrip_slash ''/bcf/unknown'') \<notin>
             {''/openapi.json'', ''/docs'', ''/docs/oauth2-redirect'', ''/redoc'', ''/bcf/versions''}"
    unfolding r by simp
  have b: "\<forall>v. v \<noteq> [] \<and> CHR ''/'' \<notin> set v
             \<longrightarrow> chop_newline (rstrip_slash ''/bcf/unknown'') \<noteq> ''/bcf/'' @ v @ ''/auth''"
    unfolding r using append_slash_neq [of "''unknown''"] by simp
  from unknown_path_not_found [of "''/bcf/unknown''" sample_url initial_state, OF a b] r
  show ?thesis by simp
qed

text \<open>
  The claim as written covers every path that matches neither of the two routes of the
  router. The path \<open>/docs\<close> is one, and the application answers it with the
  documentation page and status 200.
\<close>

theorem documentation_route_counterexample:
  "''/docs'' \<noteq> ''/bcf/versions''
   \<and> route_match (compile_path ''/bcf/{version}/auth'') ''/docs'' = None
   \<and> fst (handle_get sample_url initial_state ''/docs'') = Response 200 (Document SwaggerUI)"
proof -
  have "resolve app_routes ''/docs'' = Some (SwaggerUI, [])"
    unfolding resolve_app_routes by simp
  then show ?thesis
    by (simp add: handle_get_def compiled_routes)
qed

text \<open>
  A path that differs from a route by trailing slashes is answered with a redirect, and
  a path that differs from a route by one trailing newline character is routed like
  the route.
\<close>

lemma trailing_slash_redirect:
  "fst (handle_get sample_url initial_state ''/bcf/versions/'') = Response 307 (Redirect ''/bcf/versions'')"
proof -
  have "resolve app_routes ''/bcf/versions/'' = None"
    unfolding resolve_app_routes by (simp add: compiled_routes)
  moreover have "redirect_path ''/bcf/versions/'' = ''/bcf/versions''"
    by (simp add: redirect_path_def rstrip_slash_def)
  ultimately show ?thesis
    by (simp add: handle_get_def resolve_versions)
qed

lemma trailing_newline_routed:
  "handle_get url s (''/bcf/versions'' @ [CHR 0x0A]) = handle_get url s ''/bcf/versions''
   \<and> handle_get url s (''/docs'' @ [CHR 0x0A]) = (Response 200 (Document SwaggerUI), s)"
  unfolding handle_get_def resolve_app_routes by simp

section \<open>Sequences of requests\<close>

text \<open>
  Claim C7. In every sequence of GET requests served one after the other, two requests
  on the same path get the same response, wherever they stand in the sequence.
\<close>

theorem repeated_request_same_response:
  assumes "i < length ps" and "j < length ps" and "ps ! i = ps ! j"
  shows "fst (serve url s ps) ! i = fst (serve url s ps) ! j"
  using assms by (simp add: serve_eq)

text \<open>The theorem at a sequence that asks for the versions twice, around an auth request.\<close>

theorem repeated_request_same_response_witness:
  "(0::nat) < length [''/bcf/versions'', ''/bcf/2.1/auth'', ''/bcf/versions'']
   \<and> (2::nat) < length [''/bcf/versions'', ''/bcf/2.1/auth'', ''/bcf/versions'']
   \<and> [''/bcf/versions'', ''/bcf/2.1/auth'', ''/bcf/versions''] ! 0
       = [''/bcf/versions'', ''/bcf/2.1/auth'', ''/bcf/versions''] ! 2
   \<and> fst (serve sample_url initial_state [''/bcf/versions'', ''/bcf/2.1/auth'', ''/bcf/versions'']) ! 0
       = fst (serve sample_url initial_state [''/bcf/versions'', ''/bcf/2.1/auth'', ''/bcf/versions'']) ! 2"
proof -
  have h: "(0::nat) < length [''/bcf/versions'', ''/bcf/2.1/auth'', ''/bcf/versions'']"
    "(2::nat) < length [''/bcf/versions'', ''/bcf/2.1/auth'', ''/bcf/versions'']"
    "[''/bcf/versions'', ''/bcf/2.1/auth'', ''/bcf/versions''] ! 0
       = [''/bcf/versions'', ''/bcf/2.1/auth'', ''/bcf/versions''] ! 2"
    by simp_all
  from repeated_request_same_response [of 0 _ 2 sample_url initial_state, OF h] h
  show ?thesis by blast
qed

text \<open>
  Claim C9. Serving a GET request leaves the server state as it was: the table
  \<open>fake_db\<close> and the example dictionary are the same before and after the request, and
  after any sequence of requests.
\<close>

theorem handlers_leave_state_unchanged:
  "snd (handle_get url s p) = s \<and> snd (serve url s ps) = s"
  by (simp add: handle_get_state serve_eq)

text \<open>The theorem at the state of the source.\<close>

theorem handlers_leave_state_unchanged_witness:
  "snd (handle_get sample_url initial_state ''/bcf/versions'') = initial_state
   \<and> snd (serve sample_url initial_state [''/bcf/versions'', ''/bcf/2.1/auth'']) = initial_state"
  using handlers_leave_state_unchanged
          [of sample_url initial_state "''/bcf/versions''" "[''/bcf/versions'', ''/bcf/2.1/auth'']"] .

section \<open>Overlap of the two routes\<close>

lemma resolve_only_match:
  assumes "(t, ep) \<in> set routes"
      and "route_match (compile_path t) p = Some params"
      and "\<forall>(t', ep')\<in>set routes. \<forall>ps. route_match (compile_path t') p = Some ps
             \<longrightarrow> ep' = ep \<and> ps = params"
  shows "resolve routes p = Some (ep, params)"
  using assms
proof (induction routes)
  case Nil
  then show ?case by simp
next
  case (Cons r routes)
  obtain t' ep' where r: "r = (t', ep')" by (cases r)
  show ?case
  proof (cases "route_match (compile_path t') p")
    case (Some ps)
    with Cons.prems(3) r have "ep' = ep \<and> ps = params" by auto
    with Some r show ?thesis by simp
  next
    case None
    with Cons.prems(1,2) r have "(t, ep) \<in> set routes" by auto
    moreover from Cons.prems(3) have "\<forall>(t', ep')\<in>set routes. \<forall>ps.
        route_match (compile_path t') p = Some ps \<longrightarrow> ep' = ep \<and> ps = params"
      by auto
    ultimately have "resolve routes p = Some (ep, params)"
      using Cons.IH Cons.prems(2) by blast
    with None r show ?thesis by simp
  qed
qed

text \<open>
  Claim C10, as amended. No path is matched by both the versions route and the auth
  route. A GET request to \<open>/bcf/versions\<close> is resolved to the versions handler, with no
  path parameter captured, in whichever order the routes of the application are
  registered: the template \<open>/bcf/{version}/auth\<close> does not match this path, since it
  asks for a further segment \<open>/auth\<close>. The request is served by \<open>get_versions\<close>.
\<close>

theorem versions_route_unambiguous:
  assumes "set routes = set app_routes"
  shows "resolve routes ''/bcf/versions'' = Some (GetVersions, [])
       \<and> route_match (compile_path ''/bcf/{version}/auth'') ''/bcf/versions'' = None
       \<and> handle_get url s ''/bcf/versions'' = run_endpoint url GetVersions [] s
       \<and> (route_match (compile_path ''/bcf/versions'') p = None
            \<or> route_match (compile_path ''/bcf/{version}/auth'') p = None)"
proof -
  have auth: "route_match (compile_path ''/bcf/{version}/auth'') ''/bcf/versions'' = None"
    by (simp add: compiled_routes)
  have "(''/bcf/versions'', GetVersions) \<in> set routes"
    unfolding assms app_routes_unfold by simp
  moreover have "route_match (compile_path ''/bcf/versions'') ''/bcf/versions'' = Some []"
    by (simp add: compiled_routes)
  moreover have "\<forall>(t', ep')\<in>set routes. \<forall>ps.
      route_match (compile_path t') ''/bcf/versions'' = Some ps \<longrightarrow> ep' = GetVersions \<and> ps = []"
    unfolding assms app_routes_unfold by (simp add: compiled_routes)
  ultimately have res: "resolve routes ''/bcf/versions'' = Some (GetVersions, [])"
    by (rule resolve_only_match)
  have disjoint: "route_match (compile_path ''/bcf/versions'') p = None
            \<or> route_match (compile_path ''/bcf/{version}/auth'') p = None"
  proof (cases "route_match (compile_path ''/bcf/{version}/auth'') p")
    case None
    then show ?thesis by simp
  next
    case (Some params)
    then obtain v
      where "p = ''/bcf/'' @ v @ ''/auth'' \<or> p = ''/bcf/'' @ v @ ''/auth'' @ [CHR 0x0A]"
      unfolding auth_match_iff by blast
    from auth_path_not_literal(9,10) [OF this]
    have "route_match (compile_path ''/bcf/versions'') p = None"
      unfolding compiled_routes route_match_literal_eq by simp
    then show ?thesis by simp
  qed
  from res auth disjoint show ?thesis
    by (simp add: resolve_versions handle_get_def)
qed

text \<open>
  The theorem at the routes of the application in reverse order, the sample validator,
  the state of the source and the path \<open>/bcf/versions/auth\<close>.
\<close>

theorem versions_route_unambiguous_witness:
  "set (rev app_routes) = set app_routes
   \<and> resolve (rev app_routes) ''/bcf/versions'' = Some (GetVersions, [])
   \<and> route_match (compile_path ''/bcf/{version}/auth'') ''/bcf/versions'' = None
   \<and> handle_get sample_url initial_state ''/bcf/versions''
       = run_endpoint sample_url GetVersions [] initial_state
   \<and> route_match (compile_path ''/bcf/versions'') ''/bcf/versions/auth'' = None"
proof -
  have h: "set (rev app_routes) = set app_routes" by simp
  have n: "route_match (compile_path ''/bcf/versions'') ''/bcf/versions/auth'' = None"
    by (simp add: compiled_routes)
  from versions_route_unambiguous
         [of "rev app_routes" sample_url initial_state "''/bcf/versions/auth''", OF h] h n
  show ?thesis by simp
qed

text \<open>
  The claim as written gives the registration order as the reason of the dispatch.
  With the auth route registered before the versions route, the request is resolved to
  the versions handler all the same.
\<close>

theorem registration_order_counterexample:
  "include_router (rev router_routes) ''/bcf''
     = [(''/bcf/{version}/auth'', GetAuth), (''/bcf/versions'', GetVersions)]
   \<and> resolve (include_router (rev router_routes) ''/bcf'') ''/bcf/versions''
       = Some (GetVersions, [])"
  by (simp add: include_router_def router_routes_def compiled_routes)

end
